theory Spec2Isabelle
  imports Complex_Main "HOL-Library.Char_ord" "HOL-Library.List_Lexorder" "HOL-Library.Multiset"
begin

section \<open>Python values\<close>

text \<open>
  The script reads a GEXF file with networkx and works on the attribute dictionaries of
  the nodes and edges. An attribute value is \<open>None\<close>, a bool, an int, a float or a string.

  A Python float is modelled as an exact real number, or one of the three special values
  of IEEE 754. Rounding to 53 bits and overflow to infinity are not modelled: arithmetic
  on finite values is exact. Python's ints are unbounded, as \<open>int\<close> is.
  Strings are lists of bytes (UTF-8), compared lexicographically as Python compares
  strings by code point.
\<close>

datatype pyfloat = Fin real | PosInf | NegInf | NaN

datatype pyval = PNone | PBool bool | PInt int | PFloat pyfloat | PStr string

datatype error = ValueError | TypeError | OverflowError | ZeroDivisionError | IndexError | KeyError

type_synonym attrs = "string \<rightharpoonup> pyval"

subsection \<open>Float arithmetic and comparison\<close>

fun fsub :: "pyfloat \<Rightarrow> pyfloat \<Rightarrow> pyfloat" where
  "fsub NaN _ = NaN"
| "fsub _ NaN = NaN"
| "fsub (Fin a) (Fin b) = Fin (a - b)"
| "fsub (Fin a) PosInf = NegInf"
| "fsub (Fin a) NegInf = PosInf"
| "fsub PosInf PosInf = NaN"
| "fsub PosInf _ = PosInf"
| "fsub NegInf NegInf = NaN"
| "fsub NegInf _ = NegInf"

text \<open>Python's \<open>/\<close> on floats raises \<open>ZeroDivisionError\<close> on a zero divisor, whatever the dividend.\<close>

fun fdiv :: "pyfloat \<Rightarrow> pyfloat \<Rightarrow> error + pyfloat" where
  "fdiv x (Fin b) =
     (if b = 0 then Inl ZeroDivisionError
      else Inr (case x of Fin a \<Rightarrow> Fin (a / b)
                | PosInf \<Rightarrow> (if 0 < b then PosInf else NegInf)
                | NegInf \<Rightarrow> (if 0 < b then NegInf else PosInf)
                | NaN \<Rightarrow> NaN))"
| "fdiv NaN _ = Inr NaN"
| "fdiv _ NaN = Inr NaN"
| "fdiv (Fin a) _ = Inr (Fin 0)"
| "fdiv _ _ = Inr NaN"

text \<open>A float times an int, as in \<open>t * (len(palette) - 1)\<close>.\<close>

fun fscale :: "pyfloat \<Rightarrow> int \<Rightarrow> pyfloat" where
  "fscale (Fin a) k = Fin (a * real_of_int k)"
| "fscale NaN k = NaN"
| "fscale PosInf k = (if 0 < k then PosInf else if k < 0 then NegInf else NaN)"
| "fscale NegInf k = (if 0 < k then NegInf else if k < 0 then PosInf else NaN)"

text \<open>\<open>x < y\<close> on floats: every comparison with NaN is false.\<close>

fun flt :: "pyfloat \<Rightarrow> pyfloat \<Rightarrow> bool" where
  "flt NaN _ = False"
| "flt _ NaN = False"
| "flt (Fin a) (Fin b) = (a < b)"
| "flt NegInf NegInf = False"
| "flt NegInf _ = True"
| "flt _ NegInf = False"
| "flt PosInf _ = False"
| "flt _ PosInf = True"

definition fneg :: "pyfloat \<Rightarrow> pyfloat" where
  "fneg x = (case x of Fin a \<Rightarrow> Fin (- a) | PosInf \<Rightarrow> NegInf | NegInf \<Rightarrow> PosInf | NaN \<Rightarrow> NaN)"

definition isnan :: "pyfloat \<Rightarrow> bool" where
  "isnan x = (x = NaN)"

text \<open>
  \<open>round(x)\<close> on a float returns the nearest int, a tie going to the even neighbour;
  it raises on NaN and on the infinities. \<open>int(x)\<close> truncates towards zero and raises
  on the same values.
\<close>

definition round_half_even :: "real \<Rightarrow> int" where
  "round_half_even r =
     (let f = \<lfloor>r\<rfloor>; d = r - of_int f
      in if d < 1 / 2 then f else if 1 / 2 < d then f + 1 else if even f then f else f + 1)"

definition py_round :: "pyfloat \<Rightarrow> error + int" where
  "py_round x = (case x of Fin r \<Rightarrow> Inr (round_half_even r)
                 | NaN \<Rightarrow> Inl ValueError | _ \<Rightarrow> Inl OverflowError)"

definition trunc :: "real \<Rightarrow> int" where
  "trunc r = (if 0 \<le> r then \<lfloor>r\<rfloor> else \<lceil>r\<rceil>)"

definition int_of_float :: "pyfloat \<Rightarrow> error + int" where
  "int_of_float x = (case x of Fin r \<Rightarrow> Inr (trunc r)
                     | NaN \<Rightarrow> Inl ValueError | _ \<Rightarrow> Inl OverflowError)"

subsection \<open>Parsing numbers from strings\<close>

text \<open>
  \<open>int(s)\<close> and \<open>float(s)\<close> on an ASCII string: surrounding whitespace is stripped, a sign may
  come first, and groups of digits may be separated by single underscores. \<open>float\<close>
  also reads a decimal point, an exponent and the words inf, infinity and nan in either
  case. Both raise \<open>ValueError\<close> on anything else.
\<close>

definition is_space :: "char \<Rightarrow> bool" where
  "is_space c = (c \<in> set [CHR '' '', CHR 0x09, CHR 0x0A, CHR 0x0B, CHR 0x0C, CHR 0x0D,
                             CHR 0x1C, CHR 0x1D, CHR 0x1E, CHR 0x1F])"

definition strip :: "string \<Rightarrow> string" where
  "strip s = rev (dropWhile is_space (rev (dropWhile is_space s)))"

definition is_digit :: "char \<Rightarrow> bool" where
  "is_digit c = (c \<in> set ''0123456789'')"

definition digit_val :: "char \<Rightarrow> nat" where
  "digit_val c = of_char c - 48"

fun digits :: "string \<Rightarrow> nat list option" where
  "digits [] = None"
| "digits [c] = (if is_digit c then Some [digit_val c] else None)"
| "digits (c # d # ds) =
     (if \<not> is_digit c then None
      else case (if d = CHR ''_'' then digits ds else digits (d # ds)) of
             None \<Rightarrow> None
           | Some v \<Rightarrow> Some (digit_val c # v))"

definition digits_nat :: "nat list \<Rightarrow> nat" where
  "digits_nat ds = foldl (\<lambda>a d. 10 * a + d) 0 ds"

definition split_sign :: "string \<Rightarrow> bool \<times> string" where
  "split_sign s = (case s of [] \<Rightarrow> (False, [])
                   | c # cs \<Rightarrow> if c = CHR ''-'' then (True, cs)
                              else if c = CHR ''+'' then (False, cs) else (False, s))"

definition py_int_str :: "string \<Rightarrow> error + int" where
  "py_int_str s =
     (let (neg, body) = split_sign (strip s)
      in case digits body of
           None \<Rightarrow> Inl ValueError
         | Some ds \<Rightarrow> Inr (if neg then - int (digits_nat ds) else int (digits_nat ds)))"

text \<open>\<open>ci_eq s w\<close>: the string \<open>s\<close> is the lower-case word \<open>w\<close> up to the case of its letters.\<close>

definition ci_eq :: "string \<Rightarrow> string \<Rightarrow> bool" where
  "ci_eq s w = list_all2 (\<lambda>c l. c = l \<or> (of_char c :: nat) + 32 = of_char l) s w"

definition is_exp_mark :: "char \<Rightarrow> bool" where
  "is_exp_mark c = (c = CHR ''e'' \<or> c = CHR ''E'')"

definition parse_exponent :: "string \<Rightarrow> int option" where
  "parse_exponent s =
     (let (neg, body) = split_sign s
      in case digits body of
           None \<Rightarrow> None
         | Some ds \<Rightarrow> Some (if neg then - int (digits_nat ds) else int (digits_nat ds)))"

definition parse_mantissa :: "string \<Rightarrow> real option" where
  "parse_mantissa m =
     (let ip = takeWhile (\<lambda>c. c \<noteq> CHR ''.'') m;
          rest = dropWhile (\<lambda>c. c \<noteq> CHR ''.'') m
      in if rest = [] then map_option (\<lambda>ds. real (digits_nat ds)) (digits ip)
         else let fp = tl rest
              in if ip = [] \<and> fp = [] then None
                 else case (if ip = [] then Some [] else digits ip,
                            if fp = [] then Some [] else digits fp) of
                        (Some ips, Some fps) \<Rightarrow>
                          Some (real (digits_nat ips) + real (digits_nat fps) / 10 ^ length fps)
                      | _ \<Rightarrow> None)"

definition parse_decimal :: "string \<Rightarrow> real option" where
  "parse_decimal body =
     (let m = takeWhile (\<lambda>c. \<not> is_exp_mark c) body;
          rest = dropWhile (\<lambda>c. \<not> is_exp_mark c) body
      in case parse_mantissa m of
           None \<Rightarrow> None
         | Some v \<Rightarrow>
             (if rest = [] then Some v
              else (case parse_exponent (tl rest) of
                      None \<Rightarrow> None
                    | Some e \<Rightarrow> Some (if 0 \<le> e then v * 10 ^ nat e else v / 10 ^ nat (- e)))))"

definition py_float_str :: "string \<Rightarrow> error + pyfloat" where
  "py_float_str s =
     (let (neg, body) = split_sign (strip s)
      in if ci_eq body ''inf'' \<or> ci_eq body ''infinity'' then Inr (if neg then NegInf else PosInf)
         else if ci_eq body ''nan'' then Inr NaN
         else case parse_decimal body of
                None \<Rightarrow> Inl ValueError
              | Some v \<Rightarrow> Inr (Fin (if neg then - v else v)))"

subsection \<open>The conversions \<open>float(x)\<close>, \<open>int(x)\<close> and \<open>str(x).replace(",", ".")\<close>\<close>

definition py_float :: "pyval \<Rightarrow> error + pyfloat" where
  "py_float x = (case x of
       PNone \<Rightarrow> Inl TypeError
     | PBool b \<Rightarrow> Inr (Fin (if b then 1 else 0))
     | PInt i \<Rightarrow> Inr (Fin (real_of_int i))
     | PFloat f \<Rightarrow> Inr f
     | PStr s \<Rightarrow> py_float_str s)"

definition py_int :: "pyval \<Rightarrow> error + int" where
  "py_int x = (case x of
       PNone \<Rightarrow> Inl TypeError
     | PBool b \<Rightarrow> Inr (if b then 1 else 0)
     | PInt i \<Rightarrow> Inr i
     | PFloat f \<Rightarrow> int_of_float f
     | PStr s \<Rightarrow> py_int_str s)"

definition replace_comma :: "string \<Rightarrow> string" where
  "replace_comma s = map (\<lambda>c. if c = CHR '','' then CHR ''.'' else c) s"

text \<open>
  \<open>float(str(x).replace(",", "."))\<close>. For a string the comma is replaced and the result
  parsed. \<open>str\<close> of an int is its decimal numeral and \<open>str\<close> of a float is the shortest
  numeral that reads back as the same float, neither with a comma, so an int or a float
  comes back as its own value. \<open>str(None)\<close> is \<open>None\<close> and \<open>str\<close> of a bool is \<open>True\<close> or
  \<open>False\<close>, which \<open>float\<close> refuses.
\<close>

definition float_of_str_replaced :: "pyval \<Rightarrow> error + pyfloat" where
  "float_of_str_replaced x = (case x of
       PNone \<Rightarrow> Inl ValueError
     | PBool b \<Rightarrow> Inl ValueError
     | PInt i \<Rightarrow> Inr (Fin (real_of_int i))
     | PFloat f \<Rightarrow> Inr f
     | PStr s \<Rightarrow> py_float_str (replace_comma s))"

text \<open>Indexing a list as Python does: a negative index counts from the end.\<close>

definition py_index :: "'a list \<Rightarrow> int \<Rightarrow> error + 'a" where
  "py_index xs i =
     (if 0 \<le> i \<and> i < int (length xs) then Inr (xs ! nat i)
      else if i < 0 \<and> - int (length xs) \<le> i then Inr (xs ! nat (int (length xs) + i))
      else Inl IndexError)"

text \<open>Truthiness, for \<open>x or 1\<close>.\<close>

definition falsy :: "pyval \<Rightarrow> bool" where
  "falsy x = (case x of
       PNone \<Rightarrow> True
     | PBool b \<Rightarrow> \<not> b
     | PInt i \<Rightarrow> i = 0
     | PFloat f \<Rightarrow> f = Fin 0
     | PStr s \<Rightarrow> s = [])"

text \<open>\<open>str(x)\<close>. The text of a float is left to a parameter \<open>float_repr\<close>.\<close>

fun nat_str :: "nat \<Rightarrow> string" where
  "nat_str n = (if n < 10 then [char_of (48 + n)] else nat_str (n div 10) @ [char_of (48 + n mod 10)])"

definition int_str :: "int \<Rightarrow> string" where
  "int_str i = (if i < 0 then CHR ''-'' # nat_str (nat (- i)) else nat_str (nat i))"

definition py_str :: "(pyfloat \<Rightarrow> string) \<Rightarrow> pyval \<Rightarrow> string" where
  "py_str float_repr x = (case x of
       PNone \<Rightarrow> ''None''
     | PBool b \<Rightarrow> (if b then ''True'' else ''False'')
     | PInt i \<Rightarrow> int_str i
     | PFloat f \<Rightarrow> float_repr f
     | PStr s \<Rightarrow> s)"

text \<open>A loop whose body may raise stops at the first exception.\<close>

fun mapM :: "('a \<Rightarrow> error + 'b) \<Rightarrow> 'a list \<Rightarrow> error + 'b list" where
  "mapM f [] = Inr []"
| "mapM f (x # xs) =
     (case f x of
        Inl e \<Rightarrow> Inl e
      | Inr y \<Rightarrow> (case mapM f xs of Inl e \<Rightarrow> Inl e | Inr ys \<Rightarrow> Inr (y # ys)))"

section \<open>The colour of a vertex\<close>

definition PALETTE :: "string list" where
  "PALETTE = [''#5e4fa2'', ''#3288bd'', ''#66c2a5'', ''#abdda4'', ''#e6f598'',
              ''#fee08b'', ''#fdae61'', ''#f46d43'', ''#d53e4f'', ''#9e0142'']"

text \<open>
  \<open>linear_color(value, vmin, vmax, palette)\<close>. Its one caller passes as \<open>vmin\<close> and \<open>vmax\<close>
  the least and the greatest of a list of ints, and as \<open>value\<close> an attribute as stored.
\<close>

definition linear_color :: "pyval \<Rightarrow> int \<Rightarrow> int \<Rightarrow> string list \<Rightarrow> error + string" where
  "linear_color v vmin vmax palette =
     (if v = PNone then py_index palette 0
      else (case py_float v of
        Inl e \<Rightarrow> Inl e
      | Inr fv \<Rightarrow>
          (if isnan fv then py_index palette 0
           else if vmax \<le> vmin then py_index palette 0
           else (case fdiv (fsub fv (Fin (real_of_int vmin)))
                          (fsub (Fin (real_of_int vmax)) (Fin (real_of_int vmin))) of
             Inl e \<Rightarrow> Inl e
           | Inr t0 \<Rightarrow>
               (let t = (if flt t0 (Fin 0) then Fin 0 else if flt (Fin 1) t0 then Fin 1 else t0)
                in (case py_round (fscale t (int (length palette) - 1)) of
                      Inl e \<Rightarrow> Inl e
                    | Inr idx0 \<Rightarrow>
                        (let idx1 = (if idx0 < 0 then 0 else idx0);
                             idx = (if int (length palette) \<le> idx1
                                    then int (length palette) - 1 else idx1)
                         in py_index palette idx)))))))"


text \<open>
  The colour mapper in the words of its contract: the value is normalised linearly into
  the unit interval and clamped to it, scaled to the palette's indices, rounded and
  clamped again.
\<close>

definition unit_position :: "pyfloat \<Rightarrow> int \<Rightarrow> int \<Rightarrow> real" where
  "unit_position f vmin vmax = (case f of
       Fin r \<Rightarrow> min 1 (max 0 ((r - real_of_int vmin) / (real_of_int vmax - real_of_int vmin)))
     | PosInf \<Rightarrow> 1
     | _ \<Rightarrow> 0)"

definition contract_index :: "pyfloat \<Rightarrow> int \<Rightarrow> int \<Rightarrow> nat" where
  "contract_index f vmin vmax = nat (min 9 (max 0 (round_half_even (unit_position f vmin vmax * 9))))"

section \<open>The graph\<close>

text \<open>
  A networkx graph as the script uses it: the nodes in iteration order, each with its
  attribute dictionary, and the edges as \<open>G.edges(data=True)\<close> yields them. Node ids are
  the strings of the GEXF file, so \<open>str(n)\<close> is \<open>n\<close>. \<open>read_gexf\<close> returns a directed graph
  for a file that declares one, and a multigraph for a file with parallel edges.
\<close>

record graph =
  directed :: bool
  nodes :: "(string \<times> attrs) list"
  edges :: "(string \<times> string \<times> attrs) list"

text \<open>
  \<open>G.degree[n]\<close> counts the edge ends at \<open>n\<close> (a self-loop twice; in a directed graph the
  edges in and out). \<open>G.neighbors(n)\<close> are the nodes adjacent to \<open>n\<close>, in a directed graph
  its successors.
\<close>

definition degree :: "graph \<Rightarrow> string \<Rightarrow> int" where
  "degree G n = int (length (filter (\<lambda>(u, v, d). u = n) (edges G))
                     + length (filter (\<lambda>(u, v, d). v = n) (edges G)))"

definition neighbors :: "graph \<Rightarrow> string \<Rightarrow> string list" where
  "neighbors G n =
     map (\<lambda>(u, v, d). v) (filter (\<lambda>(u, v, d). u = n) (edges G))
     @ (if directed G then []
        else map (\<lambda>(u, v, d). u) (filter (\<lambda>(u, v, d). v = n) (edges G)))"

text \<open>The attribute names of the GEXF file, as UTF-8.\<close>

definition key_Conexoes :: string where
  "key_Conexoes = ''Conex'' @ [CHR 0xC3, CHR 0xB5] @ ''es''"

definition key_Publicacoes_totais :: string where
  "key_Publicacoes_totais = ''Publica'' @ [CHR 0xC3, CHR 0xA7, CHR 0xC3, CHR 0xB5] @ ''es_totais''"

definition key_Publicacoes_em_coautoria :: string where
  "key_Publicacoes_em_coautoria =
     ''Publica'' @ [CHR 0xC3, CHR 0xA7, CHR 0xC3, CHR 0xB5] @ ''es_em_coautoria''"

definition key_Proporcao_da_coautoria_Fiocruz :: string where
  "key_Proporcao_da_coautoria_Fiocruz =
     ''Propor'' @ [CHR 0xC3, CHR 0xA7, CHR 0xC3, CHR 0xA3] @ ''o_da_coautoria_Fiocruz''"

text \<open>\<open>d.get(k, default)\<close>.\<close>

definition get_or :: "attrs \<Rightarrow> string \<Rightarrow> pyval \<Rightarrow> pyval" where
  "get_or d k dflt = (case d k of None \<Rightarrow> dflt | Some x \<Rightarrow> x)"

section \<open>\<open>build_graph\<close>\<close>

text \<open>
  The first loop of \<open>build_graph\<close>: the stored connectivity is read as an int, directly or
  after replacing the comma and truncating; \<open>None\<close> stands for an absent or unreadable
  attribute.
\<close>

definition read_conexoes :: "attrs \<Rightarrow> int option" where
  "read_conexoes d =
     (case d key_Conexoes of
        None \<Rightarrow> None
      | Some x \<Rightarrow>
          (case py_int x of
             Inr i \<Rightarrow> Some i
           | Inl _ \<Rightarrow>
               (case float_of_str_replaced x of
                  Inl _ \<Rightarrow> None
                | Inr f \<Rightarrow> (case int_of_float f of Inl _ \<Rightarrow> None | Inr i \<Rightarrow> Some i))))"

text \<open>One node of the first loop: the connectivity collected and the node's attributes after it.\<close>

definition conexoes_step :: "graph \<Rightarrow> string \<times> attrs \<Rightarrow> int \<times> (string \<times> attrs)" where
  "conexoes_step G nd =
     (case nd of (n, d) \<Rightarrow>
        (case read_conexoes d of
           Some c \<Rightarrow> (c, (n, d))
         | None \<Rightarrow> (degree G n, (n, d(key_Conexoes \<mapsto> PInt (degree G n))))))"

text \<open>
  One node of the second loop, which stores the position and the colour. The layout
  (\<open>kamada_kawai_layout\<close>) gives one position to every node of the graph, in node order;
  its coordinates are the parameter \<open>pos\<close>.
\<close>

definition color_step ::
  "(string \<Rightarrow> pyfloat \<times> pyfloat) \<Rightarrow> int \<Rightarrow> int \<Rightarrow> string \<times> attrs \<Rightarrow> error + (string \<times> attrs)" where
  "color_step pos vmin vmax nd =
     (case nd of (n, d) \<Rightarrow>
        (let d1 = d(''x'' \<mapsto> PFloat (fst (pos n)));
             d2 = d1(''y'' \<mapsto> PFloat (snd (pos n)));
             conex = get_or d2 key_Conexoes (PInt 0)
         in case linear_color conex vmin vmax PALETTE of
              Inl e \<Rightarrow> Inl e
            | Inr c \<Rightarrow> Inr (n, d2(''color'' \<mapsto> PStr c))))"

text \<open>One edge of the third loop: the weight becomes a float, 1.0 when it cannot be read.\<close>

definition weight_step :: "string \<times> string \<times> attrs \<Rightarrow> string \<times> string \<times> attrs" where
  "weight_step e =
     (case e of (u, v, d) \<Rightarrow>
        (let w = get_or d ''weight'' (PInt 1);
             w' = (case float_of_str_replaced w of Inl _ \<Rightarrow> Fin 1 | Inr f \<Rightarrow> f)
         in (u, v, d(''weight'' \<mapsto> PFloat w'))))"

text \<open>
  The list \<open>conexoes_values\<close> that the first loop collects, the nodes as it leaves them,
  and the least and greatest value (0 and 1 for a graph without nodes).
\<close>

definition conexoes_values :: "graph \<Rightarrow> int list" where
  "conexoes_values G = map (\<lambda>nd. fst (conexoes_step G nd)) (nodes G)"

definition nodes_after_conexoes :: "graph \<Rightarrow> (string \<times> attrs) list" where
  "nodes_after_conexoes G = map (\<lambda>nd. snd (conexoes_step G nd)) (nodes G)"

definition vmin_of :: "int list \<Rightarrow> int" where
  "vmin_of vals = (if vals = [] then 0 else Min (set vals))"

definition vmax_of :: "int list \<Rightarrow> int" where
  "vmax_of vals = (if vals = [] then 1 else Max (set vals))"

definition build_graph :: "graph \<Rightarrow> (string \<Rightarrow> pyfloat \<times> pyfloat) \<Rightarrow> error + graph" where
  "build_graph G pos =
     (case mapM (color_step pos (vmin_of (conexoes_values G)) (vmax_of (conexoes_values G)))
                (nodes_after_conexoes G) of
        Inl e \<Rightarrow> Inl e
      | Inr ns \<Rightarrow> Inr (G\<lparr>nodes := ns, edges := map weight_step (edges G)\<rparr>))"

section \<open>The table of edges\<close>

record edge_row =
  aresta :: string
  colabs :: pyfloat
  comuns :: nat

text \<open>\<open>neigh.get(a, set())\<close>, where \<open>neigh\<close> maps every node to the set of its neighbours.\<close>

definition neigh :: "graph \<Rightarrow> string \<Rightarrow> string set" where
  "neigh G a = (if a \<in> fst ` set (nodes G) then set (neighbors G a) else {})"

text \<open>\<open>sorted([u, v])\<close>, and the key under which a pair is remembered.\<close>

definition sorted_pair :: "string \<Rightarrow> string \<Rightarrow> string \<times> string" where
  "sorted_pair u v = (if v < u then (v, u) else (u, v))"

definition pair_key :: "string \<Rightarrow> string \<Rightarrow> string" where
  "pair_key u v = (case sorted_pair u v of (a, b) \<Rightarrow> a @ ''||'' @ b)"

text \<open>\<open>float(d.get("weight", 1) or 1)\<close>.\<close>

definition weight_or_1 :: "attrs \<Rightarrow> error + pyfloat" where
  "weight_or_1 d = (let w = get_or d ''weight'' (PInt 1) in py_float (if falsy w then PInt 1 else w))"

definition label_of :: "(string \<rightharpoonup> string) \<Rightarrow> string \<Rightarrow> string" where
  "label_of id_to_label a = (case id_to_label a of None \<Rightarrow> a | Some l \<Rightarrow> l)"

definition make_row ::
  "graph \<Rightarrow> (string \<rightharpoonup> string) \<Rightarrow> string \<times> string \<times> attrs \<Rightarrow> error + edge_row" where
  "make_row G id_to_label e =
     (case e of (u, v, d) \<Rightarrow>
        (case sorted_pair u v of (a, b) \<Rightarrow>
           (case weight_or_1 d of
              Inl err \<Rightarrow> Inl err
            | Inr w \<Rightarrow>
                (case sorted_pair (label_of id_to_label a) (label_of id_to_label b) of (l1, l2) \<Rightarrow>
                   Inr \<lparr>aresta = l1 @ '', '' @ l2, colabs = w,
                        comuns = card ((neigh G a \<inter> neigh G b) - {a, b})\<rparr>))))"

text \<open>The loop over the edges: an edge whose key was seen is skipped.\<close>

fun edge_rows ::
  "graph \<Rightarrow> (string \<rightharpoonup> string) \<Rightarrow> string set \<Rightarrow> (string \<times> string \<times> attrs) list \<Rightarrow> error + edge_row list" where
  "edge_rows G id_to_label seen [] = Inr []"
| "edge_rows G id_to_label seen ((u, v, d) # es) =
     (if pair_key u v \<in> seen then edge_rows G id_to_label seen es
      else case make_row G id_to_label (u, v, d) of
             Inl err \<Rightarrow> Inl err
           | Inr r \<Rightarrow>
               (case edge_rows G id_to_label (insert (pair_key u v) seen) es of
                  Inl err \<Rightarrow> Inl err
                | Inr rs \<Rightarrow> Inr (r # rs)))"

text \<open>
  \<open>rows.sort(key=lambda r: (-r["colabs"], -r["comuns"], r["aresta"]))\<close>. Python compares
  the key tuples at the first component where they are not equal; a NaN is equal to
  nothing and less than nothing. \<open>list.sort\<close> is stable, so on keys that \<open><\<close> orders
  totally it returns what the stable insertion sort below returns; what it returns on
  keys with a NaN depends on the algorithm and is not modelled.
\<close>

definition feq :: "pyfloat \<Rightarrow> pyfloat \<Rightarrow> bool" where
  "feq x y = (x \<noteq> NaN \<and> y \<noteq> NaN \<and> x = y)"

definition key_lt :: "edge_row \<Rightarrow> edge_row \<Rightarrow> bool" where
  "key_lt r s =
     (if \<not> feq (fneg (colabs r)) (fneg (colabs s)) then flt (fneg (colabs r)) (fneg (colabs s))
      else if comuns r \<noteq> comuns s then - int (comuns r) < - int (comuns s)
      else aresta r < aresta s)"

fun insert_row :: "edge_row \<Rightarrow> edge_row list \<Rightarrow> edge_row list" where
  "insert_row r [] = [r]"
| "insert_row r (s # ss) = (if key_lt s r then s # insert_row r ss else r # s # ss)"

definition sort_rows :: "edge_row list \<Rightarrow> edge_row list" where
  "sort_rows rs = foldr insert_row rs []"

definition compute_common_neighbors_table ::
  "graph \<Rightarrow> (string \<rightharpoonup> string) \<Rightarrow> error + edge_row list" where
  "compute_common_neighbors_table G id_to_label =
     (case edge_rows G id_to_label {} (edges G) of
        Inl err \<Rightarrow> Inl err
      | Inr rows \<Rightarrow> Inr (sort_rows rows))"

section \<open>\<open>graph_to_embeddable_json\<close>\<close>

text \<open>The two coercions of the vertex table. A bare \<open>except\<close> catches every exception.\<close>

definition to_int :: "pyval \<Rightarrow> int" where
  "to_int x =
     (case py_int x of
        Inr i \<Rightarrow> i
      | Inl _ \<Rightarrow>
          (case float_of_str_replaced x of
             Inl _ \<Rightarrow> 0
           | Inr f \<Rightarrow> (case int_of_float f of Inl _ \<Rightarrow> 0 | Inr i \<Rightarrow> i)))"

definition to_float :: "pyval \<Rightarrow> pyfloat option" where
  "to_float x = (case float_of_str_replaced x of Inl _ \<Rightarrow> None | Inr f \<Rightarrow> Some f)"

record out_node =
  n_id :: string
  n_label :: string
  n_x :: pyfloat
  n_y :: pyfloat
  n_fx :: pyval
  n_fy :: pyval
  n_r :: pyfloat
  n_color :: pyval
  n_Publicacoes_totais :: int
  n_Publicacoes_em_coautoria :: int
  n_Conexoes :: int
  n_Proporcao_da_coautoria_Fiocruz :: "pyfloat option"

record out_link =
  l_source :: string
  l_target :: string
  l_weight :: pyfloat
  l_color :: pyval

record vertex_row =
  v_id :: string
  v_nome :: string
  v_Publicacoes_totais :: int
  v_Publicacoes_em_coautoria :: int
  v_Conexoes :: int
  v_Proporcao_da_coautoria_Fiocruz :: "pyfloat option"
  v_cor :: pyval

record report =
  graph_nodes :: "out_node list"
  graph_links :: "out_link list"
  vertex_table :: "vertex_row list"
  edge_table :: "edge_row list"

definition node_label :: "(pyfloat \<Rightarrow> string) \<Rightarrow> string \<times> attrs \<Rightarrow> string" where
  "node_label float_repr nd = (case nd of (n, d) \<Rightarrow> py_str float_repr (get_or d ''label'' (PStr n)))"

text \<open>The first loop fills \<open>id_to_label\<close>, a later node of the same id overwriting an earlier one.\<close>

definition id_to_label_of :: "(pyfloat \<Rightarrow> string) \<Rightarrow> graph \<Rightarrow> (string \<rightharpoonup> string)" where
  "id_to_label_of float_repr G =
     foldl (\<lambda>m nd. m(fst nd \<mapsto> node_label float_repr nd)) Map.empty (nodes G)"

text \<open>The body of the second loop: one node of the output.\<close>

definition emit_node :: "(pyfloat \<Rightarrow> string) \<Rightarrow> pyfloat \<Rightarrow> string \<times> attrs \<Rightarrow> error + out_node" where
  "emit_node float_repr node_radius_const nd =
     (case nd of (n, d) \<Rightarrow>
        (case py_float (get_or d ''x'' (PFloat (Fin 0))) of
           Inl e \<Rightarrow> Inl e
         | Inr x \<Rightarrow>
             (case py_float (get_or d ''y'' (PFloat (Fin 0))) of
                Inl e \<Rightarrow> Inl e
              | Inr y \<Rightarrow>
                  Inr \<lparr>n_id = n, n_label = node_label float_repr (n, d),
                       n_x = x, n_y = y, n_fx = PNone, n_fy = PNone,
                       n_r = node_radius_const,
                       n_color = get_or d ''color'' (PStr ''#1f77b4''),
                       n_Publicacoes_totais = to_int (get_or d key_Publicacoes_totais (PInt 0)),
                       n_Publicacoes_em_coautoria =
                         to_int (get_or d key_Publicacoes_em_coautoria (PInt 0)),
                       n_Conexoes = to_int (get_or d key_Conexoes (PInt 0)),
                       n_Proporcao_da_coautoria_Fiocruz =
                         to_float (get_or d key_Proporcao_da_coautoria_Fiocruz PNone)\<rparr>)))"

definition emit_link :: "string \<times> string \<times> attrs \<Rightarrow> error + out_link" where
  "emit_link e =
     (case e of (u, v, d) \<Rightarrow>
        (case weight_or_1 d of
           Inl err \<Rightarrow> Inl err
         | Inr w \<Rightarrow> Inr \<lparr>l_source = u, l_target = v, l_weight = w,
                           l_color = get_or d ''color'' (PStr ''#aaa'')\<rparr>))"

definition vertex_row_of :: "out_node \<Rightarrow> vertex_row" where
  "vertex_row_of n =
     \<lparr>v_id = n_id n, v_nome = n_label n,
      v_Publicacoes_totais = n_Publicacoes_totais n,
      v_Publicacoes_em_coautoria = n_Publicacoes_em_coautoria n,
      v_Conexoes = n_Conexoes n,
      v_Proporcao_da_coautoria_Fiocruz = n_Proporcao_da_coautoria_Fiocruz n,
      v_cor = n_color n\<rparr>"

definition graph_to_embeddable_json ::
  "(pyfloat \<Rightarrow> string) \<Rightarrow> graph \<Rightarrow> pyfloat \<Rightarrow> error + report" where
  "graph_to_embeddable_json float_repr G node_radius_const =
     (case mapM (emit_node float_repr node_radius_const) (nodes G) of
        Inl e \<Rightarrow> Inl e
      | Inr ns \<Rightarrow>
          (case mapM emit_link (edges G) of
             Inl e \<Rightarrow> Inl e
           | Inr ls \<Rightarrow>
               (case compute_common_neighbors_table G (id_to_label_of float_repr G) of
                  Inl e \<Rightarrow> Inl e
                | Inr rows \<Rightarrow>
                    Inr \<lparr>graph_nodes = ns, graph_links = ls,
                         vertex_table = map vertex_row_of ns,
                         edge_table = rows\<rparr>)))"

section \<open>Notions the properties are stated with\<close>

text \<open>
  The edges that get a row: an edge is kept when no earlier edge has its key. The rows
  of the table are the rows of these edges, sorted.
\<close>

fun first_edges ::
  "string set \<Rightarrow> (string \<times> string \<times> attrs) list \<Rightarrow> (string \<times> string \<times> attrs) list" where
  "first_edges seen [] = []"
| "first_edges seen ((u, v, d) # es) =
     (if pair_key u v \<in> seen then first_edges seen es
      else (u, v, d) # first_edges (insert (pair_key u v) seen) es)"

text \<open>The unordered pairs of endpoints among the edges of a graph.\<close>

definition endpoint_pairs :: "graph \<Rightarrow> string set set" where
  "endpoint_pairs G = (\<lambda>(u, v, d). {u, v}) ` set (edges G)"

text \<open>
  The weight of an edge as the table's contract words it: the weight read as a float
  after replacing the comma, and 1 when it is absent, cannot be read, or is zero.
\<close>

definition normalized_weight :: "attrs \<Rightarrow> pyfloat" where
  "normalized_weight d =
     (case d ''weight'' of
        None \<Rightarrow> Fin 1
      | Some w \<Rightarrow>
          (case float_of_str_replaced w of
             Inl _ \<Rightarrow> Fin 1
           | Inr f \<Rightarrow> if f = Fin 0 then Fin 1 else f))"

text \<open>
  The order of the rows as the contract words it: weight descending, then the number of
  shared neighbours descending, then the display string ascending.
\<close>

definition row_before :: "edge_row \<Rightarrow> edge_row \<Rightarrow> bool" where
  "row_before r s =
     (flt (colabs s) (colabs r)
      \<or> (colabs r = colabs s
          \<and> (comuns s < comuns r \<or> (comuns r = comuns s \<and> aresta r \<le> aresta s))))"

text \<open>An attribute that is absent, or holds a value that \<open>float\<close> reads.\<close>

definition readable :: "pyval option \<Rightarrow> bool" where
  "readable a = (case a of None \<Rightarrow> True
                 | Some x \<Rightarrow> (case py_float x of Inl _ \<Rightarrow> False | Inr _ \<Rightarrow> True))"

text \<open>
  The connectivity of a node as the pipeline uses it: the stored value when the first
  loop of \<open>build_graph\<close> can read it, and the degree of the node otherwise.
\<close>

definition connectivity :: "graph \<Rightarrow> string \<times> attrs \<Rightarrow> int" where
  "connectivity G nd = (case read_conexoes (snd nd) of Some c \<Rightarrow> c | None \<Rightarrow> degree G (fst nd))"

section \<open>Properties of the colour mapper\<close>

lemma length_PALETTE: "length PALETTE = 10" by (simp add: PALETTE_def)


lemma py_index_in: "0 \<le> i \<Longrightarrow> i < int (length xs) \<Longrightarrow> py_index xs i = Inr (xs ! nat i)"
  by (simp add: py_index_def Let_def)


lemma round_half_even_mono: "r \<le> s \<Longrightarrow> round_half_even r \<le> round_half_even s"
proof -
  assume rs: "r \<le> s"
  have fl: "\<lfloor>r\<rfloor> \<le> \<lfloor>s\<rfloor>" using rs by (rule floor_mono)
  show ?thesis
  proof (cases "\<lfloor>r\<rfloor> = \<lfloor>s\<rfloor>")
    case True
    with rs show ?thesis unfolding round_half_even_def Let_def by auto
  next
    case False
    with fl have "\<lfloor>r\<rfloor> + 1 \<le> \<lfloor>s\<rfloor>" by simp
    moreover have "round_half_even r \<le> \<lfloor>r\<rfloor> + 1" unfolding round_half_even_def Let_def by auto
    moreover have "\<lfloor>s\<rfloor> \<le> round_half_even s" unfolding round_half_even_def Let_def by auto
    ultimately show ?thesis by linarith
  qed
qed

lemma round_half_even_int: "round_half_even (real_of_int k) = k"
  unfolding round_half_even_def Let_def by simp

lemma round_half_even_range: "0 \<le> r \<Longrightarrow> r \<le> 9 \<Longrightarrow> 0 \<le> round_half_even r \<and> round_half_even r \<le> 9"
  using round_half_even_mono [of 0 r] round_half_even_mono [of r 9]
    round_half_even_int [of 0] round_half_even_int [of 9] by simp



lemma linear_color_first:
  "v = PNone \<or> py_float v = Inr NaN \<or> (vmax \<le> vmin \<and> py_float v = Inr f) \<Longrightarrow>
   linear_color v vmin vmax PALETTE = Inr ''#5e4fa2''"
  by (auto simp: linear_color_def isnan_def py_index_def PALETTE_def)

lemma linear_color_index:
  assumes "py_float v = Inr f" "f \<noteq> NaN" "vmin < vmax"
  shows "linear_color v vmin vmax PALETTE = Inr (PALETTE ! contract_index f vmin vmax)"
proof -
  have nn: "v \<noteq> PNone" using assms(1) by (auto simp: py_float_def)
  have d: "real_of_int vmax - real_of_int vmin > 0" using assms(3) by simp
  show ?thesis
  proof (cases f)
    case (Fin r)
    let ?q = "(r - real_of_int vmin) / (real_of_int vmax - real_of_int vmin)"
    let ?u = "min 1 (max 0 ?q)"
    have u: "0 \<le> ?u" "?u \<le> 1" by auto
    have rng: "0 \<le> round_half_even (?u * 9) \<and> round_half_even (?u * 9) \<le> 9"
      by (rule round_half_even_range) (use u in auto)
    have t: "(if flt (Fin ?q) (Fin 0) then Fin 0 else if flt (Fin 1) (Fin ?q) then Fin 1 else Fin ?q) = Fin ?u"
      by (auto simp: min_def max_def)
    show ?thesis
      using nn assms d Fin rng t
      by (simp add: linear_color_def isnan_def py_round_def length_PALETTE py_index_def Let_def
             contract_index_def unit_position_def)
  next
    case PosInf
    then show ?thesis using nn assms d
      by (simp add: linear_color_def isnan_def py_round_def length_PALETTE py_index_def Let_def
             contract_index_def unit_position_def round_half_even_int [of 9, simplified])
  next
    case NegInf
    then show ?thesis using nn assms d
      by (simp add: linear_color_def isnan_def py_round_def length_PALETTE py_index_def Let_def
             contract_index_def unit_position_def round_half_even_int [of 0, simplified])
  next
    case NaN
    with assms show ?thesis by simp
  qed
qed







lemma mapM_Inr_iff: "mapM f xs = Inr ys \<longleftrightarrow> list_all2 (\<lambda>x y. f x = Inr y) xs ys"
proof (induction xs arbitrary: ys)
  case Nil
  then show ?case by auto
next
  case (Cons x xs)
  show ?case
  proof (cases "f x")
    case (Inl e)
    then show ?thesis by (auto simp: list_all2_Cons1)
  next
    case (Inr y)
    then show ?thesis using Cons.IH
      by (cases "mapM f xs") (auto simp: list_all2_Cons1)
  qed
qed

lemma mapM_total: "(\<And>x. x \<in> set xs \<Longrightarrow> f x = Inr (g x)) \<Longrightarrow> mapM f xs = Inr (map g xs)"
  by (induction xs) auto

lemma mapM_Inl: "x \<in> set xs \<Longrightarrow> f x = Inl e \<Longrightarrow> \<exists>e'. mapM f xs = Inl e'"
  by (induction xs) (auto split: sum.splits)

lemma mapM_all_ok:
  "(\<And>x. x \<in> set xs \<Longrightarrow> \<exists>y. f x = Inr y \<and> P x y) \<Longrightarrow>
   \<exists>ys. mapM f xs = Inr ys \<and> list_all2 P xs ys"
proof (induction xs)
  case Nil
  then show ?case by simp
next
  case (Cons x xs)
  then obtain y where y: "f x = Inr y" "P x y" by auto
  from Cons obtain ys where ys: "mapM f xs = Inr ys" "list_all2 P xs ys" by auto
  from y ys show ?case by auto
qed




lemma build_graph_nodes:
  "build_graph G pos = Inr G' \<Longrightarrow>
   mapM (color_step pos (vmin_of (conexoes_values G)) (vmax_of (conexoes_values G)))
        (nodes_after_conexoes G) = Inr (nodes G')"
  unfolding build_graph_def by (cases "mapM (color_step pos (vmin_of (conexoes_values G)) (vmax_of (conexoes_values G))) (nodes_after_conexoes G)") auto

lemma build_graph_edges:
  "build_graph G pos = Inr G' \<Longrightarrow> edges G' = map weight_step (edges G)"
  unfolding build_graph_def by (cases "mapM (color_step pos (vmin_of (conexoes_values G)) (vmax_of (conexoes_values G))) (nodes_after_conexoes G)") auto






section \<open>A connectivity written with a comma\<close>

lemma comma_read: "read_conexoes [key_Conexoes \<mapsto> PStr ''3,5''] = Some 3"
  by code_simp

lemma comma_color: "linear_color (PStr ''3,5'') 3 3 PALETTE = Inl ValueError"
  by code_simp

lemma comma_step:
  "color_step pos 3 3 (''n1'', [key_Conexoes \<mapsto> PStr ''3,5'']) = Inl ValueError"
  using comma_color by (simp add: color_step_def get_or_def key_Conexoes_def)

text \<open>
  Claim C3. The claim is that the colour step of \<open>build_graph\<close> completes for every stored
  encoding of the connectivity. It does not: for a graph of one node whose connectivity is
  the string \<open>3,5\<close>, the first loop reads 3 and leaves the string in place, and
  \<open>linear_color\<close> then calls \<open>float\<close> on the string without replacing the comma.
\<close>

theorem build_graph_comma_raises:
  "build_graph \<lparr>directed = False, nodes = [(''n1'', [key_Conexoes \<mapsto> PStr ''3,5''])], edges = []\<rparr>
     (\<lambda>n. (Fin 0, Fin 0)) = Inl ValueError"
  using comma_read comma_step
  by (simp add: build_graph_def conexoes_values_def nodes_after_conexoes_def vmin_of_def vmax_of_def conexoes_step_def)


section \<open>When \<open>build_graph\<close> returns\<close>

lemma linear_color_total:
  "py_float v = Inr f \<Longrightarrow> \<exists>c. linear_color v vmin vmax PALETTE = Inr c"
proof -
  assume a: "py_float v = Inr f"
  show ?thesis
  proof (cases "f = NaN \<or> vmax \<le> vmin")
    case True
    with a linear_color_first [of v vmax vmin f] show ?thesis by auto
  next
    case False
    with a linear_color_index [of v f vmin vmax] show ?thesis by auto
  qed
qed

lemma color_step_total:
  "py_float (get_or d key_Conexoes (PInt 0)) = Inr f \<Longrightarrow>
   \<exists>c. color_step pos vmin vmax (n, d)
        = Inr (n, d(''x'' \<mapsto> PFloat (fst (pos n)), ''y'' \<mapsto> PFloat (snd (pos n)), ''color'' \<mapsto> PStr c))"
proof -
  assume a: "py_float (get_or d key_Conexoes (PInt 0)) = Inr f"
  from linear_color_total [OF a] obtain c where
    "linear_color (get_or d key_Conexoes (PInt 0)) vmin vmax PALETTE = Inr c" by blast
  then show ?thesis
    by (intro exI [of _ c]) (simp add: color_step_def get_or_def key_Conexoes_def)
qed

lemma color_step_shape:
  "color_step pos vmin vmax (n, d) = Inr nd \<Longrightarrow>
   \<exists>c. nd = (n, d(''x'' \<mapsto> PFloat (fst (pos n)), ''y'' \<mapsto> PFloat (snd (pos n)), ''color'' \<mapsto> PStr c))"
  by (auto simp: color_step_def Let_def split: sum.splits)

lemma conexoes_step_cases:
  "conexoes_step G (n, d) = (c, nd) \<Longrightarrow>
     (read_conexoes d = Some c \<and> nd = (n, d))
   \<or> (read_conexoes d = None \<and> c = degree G n \<and> nd = (n, d(key_Conexoes \<mapsto> PInt (degree G n))))"
  by (auto simp: conexoes_step_def split: option.splits)

lemma build_graph_total:
  assumes "\<And>n d. (n, d) \<in> set (nodes G) \<Longrightarrow>
             read_conexoes d = None \<or> (\<exists>x f. d key_Conexoes = Some x \<and> py_float x = Inr f)"
  shows "\<exists>G'. build_graph G pos = Inr G'"
proof -
  let ?vmin = "vmin_of (conexoes_values G)" and ?vmax = "vmax_of (conexoes_values G)"
  have "\<exists>y. color_step pos ?vmin ?vmax nd = Inr y \<and> True" if "nd \<in> set (nodes_after_conexoes G)" for nd
  proof -
    from that obtain n d where nd: "(n, d) \<in> set (nodes G)" "nd = snd (conexoes_step G (n, d))"
      unfolding nodes_after_conexoes_def by auto
    obtain c nd' where cs: "conexoes_step G (n, d) = (c, nd')" by (cases "conexoes_step G (n, d)") auto
    from conexoes_step_cases [OF cs] assms [OF nd(1)]
    have "\<exists>d' f. nd' = (n, d') \<and> py_float (get_or d' key_Conexoes (PInt 0)) = Inr f"
      by (auto simp: get_or_def py_float_def)
    then obtain d' f where "nd' = (n, d')" "py_float (get_or d' key_Conexoes (PInt 0)) = Inr f" by blast
    with color_step_total [of d' f pos ?vmin ?vmax n] nd(2) cs show ?thesis by auto
  qed
  from mapM_all_ok [of "nodes_after_conexoes G" "color_step pos ?vmin ?vmax" "\<lambda>x y. True", OF this]
  obtain ns where "mapM (color_step pos ?vmin ?vmax) (nodes_after_conexoes G) = Inr ns" by blast
  then show ?thesis unfolding build_graph_def by simp
qed


section \<open>Properties of the table of edges\<close>

lemma edge_rows_first_edges:
  "edge_rows G L seen es = mapM (make_row G L) (first_edges seen es)"
  by (induction es arbitrary: seen) (auto split: sum.splits)

lemma mset_insert_row: "mset (insert_row r rs) = add_mset r (mset rs)"
  by (induction rs) auto

lemma mset_sort_rows: "mset (sort_rows rs) = mset rs"
  unfolding sort_rows_def by (induction rs) (auto simp: mset_insert_row)



lemma make_row_colabs:
  "make_row G L (u, v, d) = Inr r \<Longrightarrow> weight_or_1 d = Inr (colabs r)"
  by (auto simp: make_row_def split: prod.splits sum.splits)




lemma weight_step_normalized:
  "weight_step (u, v, d) = (u', v', d') \<Longrightarrow> weight_or_1 d' = Inr (normalized_weight d)"
  by (auto simp: weight_step_def weight_or_1_def normalized_weight_def get_or_def Let_def
        falsy_def py_float_def float_of_str_replaced_def split: option.splits sum.splits)

lemma make_row_total:
  "weight_or_1 d = Inr w \<Longrightarrow> \<exists>r. make_row G L (u, v, d) = Inr r \<and> colabs r = w"
  by (auto simp: make_row_def split: prod.splits)





lemma read_conexoes_absent: "d key_Conexoes = None \<Longrightarrow> read_conexoes d = None"
  by (simp add: read_conexoes_def)



subsection \<open>The order of the rows\<close>

lemma flt_trans: "flt a b \<Longrightarrow> flt b c \<Longrightarrow> flt a c"
  by (cases a; cases b; cases c) auto

lemma flt_asym: "flt a b \<Longrightarrow> \<not> flt b a"
  by (cases a; cases b) auto

lemma flt_irrefl: "\<not> flt a a"
  by (cases a) auto

lemma flt_total: "a \<noteq> NaN \<Longrightarrow> b \<noteq> NaN \<Longrightarrow> a \<noteq> b \<Longrightarrow> flt a b \<or> flt b a"
  by (cases a; cases b) auto

lemma flt_fneg: "flt (fneg a) (fneg b) = flt b a"
  by (cases a; cases b) (auto simp: fneg_def)

lemma feq_fneg: "a \<noteq> NaN \<Longrightarrow> b \<noteq> NaN \<Longrightarrow> feq (fneg a) (fneg b) = (a = b)"
  by (cases a; cases b) (auto simp: fneg_def feq_def)

lemma key_lt_row_before:
  assumes "colabs r \<noteq> NaN" "colabs s \<noteq> NaN"
  shows "key_lt s r \<longleftrightarrow> \<not> row_before r s"
proof (cases "colabs r = colabs s")
  case True
  then show ?thesis using assms
    by (auto simp: key_lt_def row_before_def feq_fneg flt_irrefl)
next
  case False
  with flt_total [OF assms False] flt_asym [of "colabs r" "colabs s"] show ?thesis using assms
    by (auto simp: key_lt_def row_before_def feq_fneg flt_fneg)
qed

lemma row_before_total:
  "colabs r \<noteq> NaN \<Longrightarrow> colabs s \<noteq> NaN \<Longrightarrow> row_before r s \<or> row_before s r"
  using flt_total [of "colabs r" "colabs s"] by (auto simp: row_before_def)

lemma row_before_trans:
  assumes "row_before r s" "row_before s t"
  shows "row_before r t"
proof -
  consider (a) "flt (colabs s) (colabs r)" | (b) "colabs r = colabs s" "comuns s < comuns r"
    | (c) "colabs r = colabs s" "comuns r = comuns s" "aresta r \<le> aresta s"
    using assms(1) by (auto simp: row_before_def)
  then show ?thesis
  proof cases
    case a
    with assms(2) show ?thesis by (auto simp: row_before_def dest: flt_trans)
  next
    case b
    with assms(2) show ?thesis by (auto simp: row_before_def)
  next
    case c
    with assms(2) show ?thesis by (auto simp: row_before_def)
  qed
qed

lemma set_insert_row: "set (insert_row r rs) = insert r (set rs)"
  by (induction rs) auto

lemma sorted_insert_row:
  assumes "sorted_wrt row_before rs" "colabs r \<noteq> NaN" "\<And>x. x \<in> set rs \<Longrightarrow> colabs x \<noteq> NaN"
  shows "sorted_wrt row_before (insert_row r rs)"
  using assms
proof (induction rs)
  case Nil
  then show ?case by simp
next
  case (Cons s ss)
  have sn: "colabs s \<noteq> NaN" using Cons.prems(3) by simp
  show ?case
  proof (cases "key_lt s r")
    case True
    then have "\<not> row_before r s" using key_lt_row_before [OF Cons.prems(2) sn] by simp
    then have sr: "row_before s r" using row_before_total [OF Cons.prems(2) sn] by blast
    have "sorted_wrt row_before (insert_row r ss)"
      using Cons.IH Cons.prems by simp
    moreover have "\<forall>x\<in>set (insert_row r ss). row_before s x"
      using sr Cons.prems(1) by (auto simp: set_insert_row)
    ultimately show ?thesis using True by simp
  next
    case False
    then have rs: "row_before r s" using key_lt_row_before [OF Cons.prems(2) sn] by simp
    have "\<forall>x\<in>set ss. row_before r x"
      using rs Cons.prems(1) by (auto intro: row_before_trans)
    with rs Cons.prems(1) False show ?thesis by simp
  qed
qed

lemma set_sort_rows: "set (sort_rows rs) = set rs"
  using mset_sort_rows [of rs] by (metis set_mset_mset)

lemma sorted_sort_rows:
  "(\<And>x. x \<in> set rs \<Longrightarrow> colabs x \<noteq> NaN) \<Longrightarrow> sorted_wrt row_before (sort_rows rs)"
proof (induction rs)
  case Nil
  show ?case by (simp add: sort_rows_def)
next
  case (Cons r rs)
  have "sorted_wrt row_before (insert_row r (sort_rows rs))"
    using Cons by (intro sorted_insert_row) (auto simp: set_sort_rows)
  then show ?case by (simp add: sort_rows_def)
qed

text \<open>
  Claim C7. The rows the table returns are in the order of the contract: of two rows, the
  one with the greater weight comes first; at equal weights, the one with more shared
  neighbours; at equal counts, the one whose display string is not greater. This holds
  when no weight is NaN (a NaN is neither less nor greater than any weight). Of the rows
  \<open>(5, 2, "A, B")\<close> and \<open>(5, 3, "A, C")\<close> the second sorts first.
\<close>

theorem edge_rows_sorted:
  assumes "compute_common_neighbors_table G L = Inr rows" "\<forall>r\<in>set rows. colabs r \<noteq> NaN"
  shows "sorted_wrt row_before rows
         \<and> sort_rows [\<lparr>aresta = ''A, B'', colabs = Fin 5, comuns = 2\<rparr>,
                       \<lparr>aresta = ''A, C'', colabs = Fin 5, comuns = 3\<rparr>]
             = [\<lparr>aresta = ''A, C'', colabs = Fin 5, comuns = 3\<rparr>,
                \<lparr>aresta = ''A, B'', colabs = Fin 5, comuns = 2\<rparr>]"
proof -
  from assms(1) obtain rows0 where r: "rows = sort_rows rows0"
    by (auto simp: compute_common_neighbors_table_def split: sum.splits)
  with assms(2) have "\<And>x. x \<in> set rows0 \<Longrightarrow> colabs x \<noteq> NaN" by (simp add: set_sort_rows)
  then have "sorted_wrt row_before rows" unfolding r by (rule sorted_sort_rows)
  moreover have "sort_rows [\<lparr>aresta = ''A, B'', colabs = Fin 5, comuns = 2\<rparr>,
                       \<lparr>aresta = ''A, C'', colabs = Fin 5, comuns = 3\<rparr>]
             = [\<lparr>aresta = ''A, C'', colabs = Fin 5, comuns = 3\<rparr>,
                \<lparr>aresta = ''A, B'', colabs = Fin 5, comuns = 2\<rparr>]"
    by code_simp
  ultimately show ?thesis by simp
qed


theorem edge_rows_sorted_witness:
  "compute_common_neighbors_table
     \<lparr>directed = False,
        nodes = [(''A'', Map.empty), (''B'', Map.empty), (''C'', Map.empty), (''D'', Map.empty)],
        edges = [(''A'', ''B'', [''weight'' \<mapsto> PFloat (Fin 5)]),
                 (''B'', ''C'', [''weight'' \<mapsto> PFloat (Fin 2)]),
                 (''A'', ''C'', [''weight'' \<mapsto> PFloat (Fin 5)]),
                 (''C'', ''D'', [''weight'' \<mapsto> PFloat (Fin 5)]),
                 (''B'', ''A'', [''weight'' \<mapsto> PFloat (Fin 9)]),
                 (''D'', ''A'', [''weight'' \<mapsto> PFloat PosInf])]\<rparr> Map.empty
   = Inr [\<lparr>aresta = ''A, D'', colabs = PosInf, comuns = 1\<rparr>,
          \<lparr>aresta = ''A, C'', colabs = Fin 5, comuns = 2\<rparr>,
          \<lparr>aresta = ''A, B'', colabs = Fin 5, comuns = 1\<rparr>,
          \<lparr>aresta = ''C, D'', colabs = Fin 5, comuns = 1\<rparr>,
          \<lparr>aresta = ''B, C'', colabs = Fin 2, comuns = 1\<rparr>]
   \<and> sorted_wrt row_before
         [\<lparr>aresta = ''A, D'', colabs = PosInf, comuns = 1\<rparr>,
          \<lparr>aresta = ''A, C'', colabs = Fin 5, comuns = 2\<rparr>,
          \<lparr>aresta = ''A, B'', colabs = Fin 5, comuns = 1\<rparr>,
          \<lparr>aresta = ''C, D'', colabs = Fin 5, comuns = 1\<rparr>,
          \<lparr>aresta = ''B, C'', colabs = Fin 2, comuns = 1\<rparr>]"
proof -
  let ?G = "\<lparr>directed = False,
        nodes = [(''A'', Map.empty), (''B'', Map.empty), (''C'', Map.empty), (''D'', Map.empty)],
        edges = [(''A'', ''B'', [''weight'' \<mapsto> PFloat (Fin 5)]),
                 (''B'', ''C'', [''weight'' \<mapsto> PFloat (Fin 2)]),
                 (''A'', ''C'', [''weight'' \<mapsto> PFloat (Fin 5)]),
                 (''C'', ''D'', [''weight'' \<mapsto> PFloat (Fin 5)]),
                 (''B'', ''A'', [''weight'' \<mapsto> PFloat (Fin 9)]),
                 (''D'', ''A'', [''weight'' \<mapsto> PFloat PosInf])]\<rparr>"
  let ?rows = "[\<lparr>aresta = ''A, D'', colabs = PosInf, comuns = 1\<rparr>,
          \<lparr>aresta = ''A, C'', colabs = Fin 5, comuns = 2\<rparr>,
          \<lparr>aresta = ''A, B'', colabs = Fin 5, comuns = 1\<rparr>,
          \<lparr>aresta = ''C, D'', colabs = Fin 5, comuns = 1\<rparr>,
          \<lparr>aresta = ''B, C'', colabs = Fin 2, comuns = 1\<rparr>]"
  have t: "compute_common_neighbors_table ?G Map.empty = Inr ?rows" by code_simp
  have n: "\<forall>r\<in>set ?rows. colabs r \<noteq> NaN" by simp
  from edge_rows_sorted [OF t n] t show ?thesis by blast
qed

text \<open>
  Claim C4. The claim is that the table has one row for every unordered pair of endpoints.
  The key of a pair is the two sorted ids joined by \<open>||\<close>, and two different pairs can have
  the same key: the edges \<open>(a||, b)\<close> and \<open>(a, ||b)\<close> are two pairs and get one row.
\<close>

theorem pair_key_collision:
  "compute_common_neighbors_table
     \<lparr>directed = False,
        nodes = [(''a||'', Map.empty), (''b'', Map.empty), (''a'', Map.empty), (''||b'', Map.empty)],
        edges = [(''a||'', ''b'', Map.empty), (''a'', ''||b'', Map.empty)]\<rparr> Map.empty
   = Inr [\<lparr>aresta = ''a||, b'', colabs = Fin 1, comuns = 0\<rparr>]
   \<and> card (endpoint_pairs
        \<lparr>directed = False,
           nodes = [(''a||'', Map.empty), (''b'', Map.empty), (''a'', Map.empty), (''||b'', Map.empty)],
           edges = [(''a||'', ''b'', Map.empty), (''a'', ''||b'', Map.empty)]\<rparr>) = 2
   \<and> pair_key ''a||'' ''b'' = pair_key ''a'' ''||b''"
proof -
  have 1: "compute_common_neighbors_table
     \<lparr>directed = False,
        nodes = [(''a||'', Map.empty), (''b'', Map.empty), (''a'', Map.empty), (''||b'', Map.empty)],
        edges = [(''a||'', ''b'', Map.empty), (''a'', ''||b'', Map.empty)]\<rparr> Map.empty
   = Inr [\<lparr>aresta = ''a||, b'', colabs = Fin 1, comuns = 0\<rparr>]" by code_simp
  have 2: "card (endpoint_pairs
        \<lparr>directed = False,
           nodes = [(''a||'', Map.empty), (''b'', Map.empty), (''a'', Map.empty), (''||b'', Map.empty)],
           edges = [(''a||'', ''b'', Map.empty), (''a'', ''||b'', Map.empty)]\<rparr>) = 2"
    by (simp add: endpoint_pairs_def doubleton_eq_iff)
  have 3: "pair_key ''a||'' ''b'' = pair_key ''a'' ''||b''" by code_simp
  from 1 2 3 show ?thesis by blast
qed

text \<open>The example of the contract: the edges (A,B), (B,A) and (A,C) give two rows.\<close>

lemma table_example_two_rows:
  "compute_common_neighbors_table
     \<lparr>directed = True,
        nodes = [(''A'', Map.empty), (''B'', Map.empty), (''C'', Map.empty)],
        edges = [(''A'', ''B'', Map.empty), (''B'', ''A'', Map.empty), (''A'', ''C'', Map.empty)]\<rparr> Map.empty
   = Inr [\<lparr>aresta = ''A, B'', colabs = Fin 1, comuns = 0\<rparr>,
          \<lparr>aresta = ''A, C'', colabs = Fin 1, comuns = 0\<rparr>]"
  by code_simp


section \<open>The coercions of the vertex table\<close>

lemma to_int_direct: "py_int x = Inr i \<Longrightarrow> to_int x = i"
  by (simp add: to_int_def)

lemma to_int_truncates:
  "py_int x = Inl e \<Longrightarrow> float_of_str_replaced x = Inr (Fin r) \<Longrightarrow> to_int x = trunc r"
  by (simp add: to_int_def int_of_float_def)

lemma to_int_fallback:
  "py_int x = Inl e \<Longrightarrow>
   float_of_str_replaced x = Inl e' \<or> float_of_str_replaced x \<in> {Inr NaN, Inr PosInf, Inr NegInf} \<Longrightarrow>
   to_int x = 0"
  by (auto simp: to_int_def int_of_float_def)

lemma trunc_towards_zero: "\<bar>real_of_int (trunc r)\<bar> \<le> \<bar>r\<bar> \<and> \<bar>r - real_of_int (trunc r)\<bar> < 1"
  unfolding trunc_def by (simp; linarith)

lemma to_float_comma: "to_float (PStr ''3,5'') = Some (Fin (7 / 2))"
  by code_simp

lemma to_int_abc: "to_int (PStr ''abc'') = 0"
  by code_simp

text \<open>
  Claim C8. \<open>to_int\<close> returns the direct conversion \<open>int(x)\<close> when that succeeds; when it
  fails, the value of \<open>float(str(x).replace(",", "."))\<close> truncated towards zero; and 0
  when that fails too (the text does not parse, or the float is NaN or infinite).
  \<open>to_float\<close> returns the float that \<open>float(str(x).replace(",", "."))\<close> reads, and \<open>None\<close>,
  not 0, when it raises. For a string the comma is replaced by a dot before parsing:
  \<open>"3,5"\<close> becomes 3.5, and \<open>"abc"\<close> in an integer field becomes 0.
\<close>

theorem coercion_contract:
  "(py_int x = Inr i \<longrightarrow> to_int x = i)
   \<and> (py_int x = Inl e \<and> float_of_str_replaced x = Inr (Fin r) \<longrightarrow> to_int x = trunc r)
   \<and> (py_int x = Inl e
        \<and> (float_of_str_replaced x = Inl e'
            \<or> float_of_str_replaced x \<in> {Inr NaN, Inr PosInf, Inr NegInf}) \<longrightarrow> to_int x = 0)
   \<and> to_float x = (case float_of_str_replaced x of Inr f \<Rightarrow> Some f | Inl _ \<Rightarrow> None)
   \<and> float_of_str_replaced (PStr s)
       = py_float_str (map (\<lambda>c. if c = CHR '','' then CHR ''.'' else c) s)
   \<and> to_float (PStr ''3,5'') = Some (Fin (7 / 2))
   \<and> to_int (PStr ''abc'') = 0"
  using to_int_direct to_int_truncates to_int_fallback to_float_comma to_int_abc
  by (auto simp: to_float_def float_of_str_replaced_def replace_comma_def split: sum.splits)

theorem coercion_contract_witness:
  "to_int (PStr ''3,5'') = 3 \<and> to_int (PInt 7) = 7 \<and> to_int PNone = 0
   \<and> to_float (PStr ''abc'') = None"
proof -
  have a: "py_int (PStr ''3,5'') = Inl ValueError" by code_simp
  have b: "float_of_str_replaced (PStr ''3,5'') = Inr (Fin (7 / 2))" by code_simp
  have c: "trunc (7 / 2) = 3" by (simp add: trunc_def)
  have d: "py_int (PInt 7) = Inr 7" by (simp add: py_int_def)
  have e: "py_int PNone = Inl TypeError" by (simp add: py_int_def)
  have f: "float_of_str_replaced PNone = Inl ValueError"
    by (simp add: float_of_str_replaced_def)
  have g: "float_of_str_replaced (PStr ''abc'') = Inl ValueError" by code_simp
  from coercion_contract [of "PStr ''3,5''" 0 ValueError "7 / 2" ValueError "[]"] a b c
  have 1: "to_int (PStr ''3,5'') = 3" by simp
  from coercion_contract [of "PInt 7" 7 ValueError 0 ValueError "[]"] d
  have 2: "to_int (PInt 7) = 7" by simp
  from coercion_contract [of PNone 0 TypeError 0 ValueError "[]"] e f
  have 3: "to_int PNone = 0" by simp
  from coercion_contract [of "PStr ''abc''" 0 TypeError 0 ValueError "[]"] g
  have 4: "to_float (PStr ''abc'') = None" by simp
  from 1 2 3 4 show ?thesis by simp
qed

section \<open>Properties of \<open>graph_to_embeddable_json\<close>\<close>

lemma emit_node_ok:
  assumes "readable (d ''x'')" "readable (d ''y'')"
  shows "\<exists>ob. emit_node fr rad (n, d) = Inr ob \<and> n_id ob = n
            \<and> (d ''x'' = None \<longrightarrow> n_x ob = Fin 0) \<and> (d ''y'' = None \<longrightarrow> n_y ob = Fin 0)
            \<and> (d ''color'' = None \<longrightarrow> n_color ob = PStr ''#1f77b4'')"
proof -
  from assms(1) obtain x where x: "py_float (get_or d ''x'' (PFloat (Fin 0))) = Inr x"
      "d ''x'' = None \<longrightarrow> x = Fin 0"
    by (auto simp: readable_def get_or_def py_float_def split: option.splits sum.splits)
  from assms(2) obtain y where y: "py_float (get_or d ''y'' (PFloat (Fin 0))) = Inr y"
      "d ''y'' = None \<longrightarrow> y = Fin 0"
    by (auto simp: readable_def get_or_def py_float_def split: option.splits sum.splits)
  from x y show ?thesis by (simp add: emit_node_def get_or_def)
qed

lemma emit_link_ok: "weight_or_1 d = Inr w \<Longrightarrow> \<exists>l. emit_link (u, v, d) = Inr l \<and> True"
  by (simp add: emit_link_def)

lemma set_first_edges: "set (first_edges seen es) \<subseteq> set es"
proof (induction es arbitrary: seen)
  case Nil
  show ?case by simp
next
  case (Cons e es)
  obtain u v d where e: "e = (u, v, d)" by (cases e) auto
  show ?case unfolding e using Cons [of seen] Cons [of "insert (pair_key u v) seen"]
    by (cases "pair_key u v \<in> seen") auto
qed

lemma table_total:
  assumes "\<forall>(u, v, d)\<in>set (edges G). \<exists>w. weight_or_1 d = Inr w"
  shows "\<exists>rows. compute_common_neighbors_table G L = Inr rows"
proof -
  have "\<exists>r. make_row G L e = Inr r \<and> True" if "e \<in> set (first_edges {} (edges G))" for e
  proof -
    obtain u v d where e: "e = (u, v, d)" by (cases e) auto
    with that set_first_edges [of "{}" "edges G"] assms obtain w where "weight_or_1 d = Inr w" by blast
    from make_row_total [OF this, of G L u v] e show ?thesis by auto
  qed
  from mapM_all_ok [of "first_edges {} (edges G)" "make_row G L" "\<lambda>x y. True", OF this]
  show ?thesis by (auto simp: compute_common_neighbors_table_def edge_rows_first_edges)
qed

text \<open>
  Claim C10. \<open>graph_to_embeddable_json\<close> returns for every graph whose stored positions,
  where present, are values \<open>float\<close> reads and whose weights \<open>float\<close> reads: a missing
  \<open>x\<close> or \<open>y\<close> raises nothing and is emitted as 0.0, a missing colour is emitted as
  \<open>#1f77b4\<close>, and the output has one node and one vertex row for every node of the graph,
  in order.
\<close>

theorem missing_position_and_color:
  assumes "\<forall>(n, d)\<in>set (nodes G). readable (d ''x'') \<and> readable (d ''y'')"
    and "\<forall>(u, v, d)\<in>set (edges G). \<exists>w. weight_or_1 d = Inr w"
  shows "\<exists>out. graph_to_embeddable_json float_repr G node_radius_const = Inr out
           \<and> list_all2 (\<lambda>(n, d) ob. n_id ob = n
                  \<and> (d ''x'' = None \<longrightarrow> n_x ob = Fin 0) \<and> (d ''y'' = None \<longrightarrow> n_y ob = Fin 0)
                  \<and> (d ''color'' = None \<longrightarrow> n_color ob = PStr ''#1f77b4''))
                (nodes G) (graph_nodes out)
           \<and> length (vertex_table out) = length (nodes G)"
proof -
  have "\<exists>ob. emit_node float_repr node_radius_const nd = Inr ob
        \<and> (case nd of (n, d) \<Rightarrow> \<lambda>ob. n_id ob = n
                  \<and> (d ''x'' = None \<longrightarrow> n_x ob = Fin 0) \<and> (d ''y'' = None \<longrightarrow> n_y ob = Fin 0)
                  \<and> (d ''color'' = None \<longrightarrow> n_color ob = PStr ''#1f77b4'')) ob"
    if "nd \<in> set (nodes G)" for nd
  proof -
    obtain n d where nd: "nd = (n, d)" by (cases nd) auto
    with that assms(1) have "readable (d ''x'')" "readable (d ''y'')" by auto
    from emit_node_ok [OF this, of float_repr node_radius_const n] nd show ?thesis by simp
  qed
  from mapM_all_ok [of "nodes G" "emit_node float_repr node_radius_const", OF this]
  obtain ns where ns: "mapM (emit_node float_repr node_radius_const) (nodes G) = Inr ns"
    "list_all2 (\<lambda>(n, d) ob. n_id ob = n
                  \<and> (d ''x'' = None \<longrightarrow> n_x ob = Fin 0) \<and> (d ''y'' = None \<longrightarrow> n_y ob = Fin 0)
                  \<and> (d ''color'' = None \<longrightarrow> n_color ob = PStr ''#1f77b4'')) (nodes G) ns" by blast
  have "\<exists>l. emit_link e = Inr l \<and> True" if "e \<in> set (edges G)" for e
  proof -
    obtain u v d where e: "e = (u, v, d)" by (cases e) auto
    with that assms(2) obtain w where "weight_or_1 d = Inr w" by blast
    from emit_link_ok [OF this, of u v] e show ?thesis by simp
  qed
  from mapM_all_ok [of "edges G" emit_link "\<lambda>x y. True", OF this]
  obtain ls where ls: "mapM emit_link (edges G) = Inr ls" by blast
  from table_total [OF assms(2)] obtain rows where
    rows: "compute_common_neighbors_table G (id_to_label_of float_repr G) = Inr rows" by blast
  have "graph_to_embeddable_json float_repr G node_radius_const
        = Inr \<lparr>graph_nodes = ns, graph_links = ls, vertex_table = map vertex_row_of ns, edge_table = rows\<rparr>"
    by (simp add: graph_to_embeddable_json_def ns(1) ls rows)
  moreover have "length ns = length (nodes G)" using ns(2) by (simp add: list_all2_lengthD)
  ultimately show ?thesis using ns(2) by simp
qed


theorem missing_position_and_color_witness:
  "\<exists>out. graph_to_embeddable_json (\<lambda>f. ''0.0'')
             \<lparr>directed = False,
                nodes = [(''A'', Map.empty), (''B'', [''x'' \<mapsto> PInt 3, ''color'' \<mapsto> PStr ''#fff''])],
                edges = [(''A'', ''B'', Map.empty)]\<rparr> (Fin 8) = Inr out
         \<and> map n_id (graph_nodes out) = [''A'', ''B'']
         \<and> map n_x (graph_nodes out) = [Fin 0, Fin 3]
         \<and> map n_y (graph_nodes out) = [Fin 0, Fin 0]
         \<and> map n_color (graph_nodes out) = [PStr ''#1f77b4'', PStr ''#fff'']
         \<and> length (vertex_table out) = 2"
proof -
  let ?G = "\<lparr>directed = False,
                nodes = [(''A'', Map.empty), (''B'', [''x'' \<mapsto> PInt 3, ''color'' \<mapsto> PStr ''#fff''])],
                edges = [(''A'', ''B'', Map.empty)]\<rparr>"
  have 1: "\<forall>(n, d)\<in>set (nodes ?G). readable (d ''x'') \<and> readable (d ''y'')"
    by (simp add: readable_def py_float_def)
  have 2: "\<forall>(u, v, d)\<in>set (edges ?G). \<exists>w. weight_or_1 d = Inr w"
    by (simp add: weight_or_1_def get_or_def falsy_def py_float_def)
  from missing_position_and_color [OF 1 2, of "\<lambda>f. ''0.0''" "Fin 8"]
  obtain out where out: "graph_to_embeddable_json (\<lambda>f. ''0.0'') ?G (Fin 8) = Inr out"
    "length (vertex_table out) = length (nodes ?G)" by blast
  from out(1) have ns: "mapM (emit_node (\<lambda>f. ''0.0'') (Fin 8)) (nodes ?G) = Inr (graph_nodes out)"
    by (auto simp: graph_to_embeddable_json_def split: sum.splits)
  have a: "emit_node (\<lambda>f. ''0.0'') (Fin 8) (''A'', Map.empty) = Inr oa \<Longrightarrow>
        n_id oa = ''A'' \<and> n_x oa = Fin 0 \<and> n_y oa = Fin 0 \<and> n_color oa = PStr ''#1f77b4''" for oa
    by (auto simp: emit_node_def get_or_def py_float_def)
  have b: "emit_node (\<lambda>f. ''0.0'') (Fin 8) (''B'', [''x'' \<mapsto> PInt 3, ''color'' \<mapsto> PStr ''#fff'']) = Inr ob \<Longrightarrow>
        n_id ob = ''B'' \<and> n_x ob = Fin 3 \<and> n_y ob = Fin 0 \<and> n_color ob = PStr ''#fff''" for ob
    by (auto simp: emit_node_def get_or_def py_float_def)
  from ns have "list_all2 (\<lambda>x y. emit_node (\<lambda>f. ''0.0'') (Fin 8) x = Inr y) (nodes ?G) (graph_nodes out)"
    by (simp only: mapM_Inr_iff)
  then obtain oa ob where o: "graph_nodes out = [oa, ob]"
      "emit_node (\<lambda>f. ''0.0'') (Fin 8) (''A'', Map.empty) = Inr oa"
      "emit_node (\<lambda>f. ''0.0'') (Fin 8) (''B'', [''x'' \<mapsto> PInt 3, ''color'' \<mapsto> PStr ''#fff'']) = Inr ob"
    by (auto simp: list_all2_Cons1)
  from a [OF o(2)] b [OF o(3)] o(1) have "map n_id (graph_nodes out) = [''A'', ''B'']
         \<and> map n_x (graph_nodes out) = [Fin 0, Fin 3]
         \<and> map n_y (graph_nodes out) = [Fin 0, Fin 0]
         \<and> map n_color (graph_nodes out) = [PStr ''#1f77b4'', PStr ''#fff'']"
    by simp
  with out show ?thesis by auto
qed


subsection \<open>The connectivity of a node\<close>

lemma mapM_list_all2:
  assumes "list_all2 R xs ys" "\<And>x y. R x y \<Longrightarrow> \<exists>z. f y = Inr z \<and> Q x z"
  shows "\<exists>zs. mapM f ys = Inr zs \<and> list_all2 Q xs zs"
  using assms(1)
proof (induction rule: list_all2_induct)
  case Nil
  show ?case by simp
next
  case (Cons x xs y ys)
  from assms(2) [OF Cons.hyps(1)] obtain z where z: "f y = Inr z" "Q x z" by blast
  from Cons.IH obtain zs where zs: "mapM f ys = Inr zs" "list_all2 Q xs zs" by blast
  from z zs show ?case by simp
qed

lemma read_conexoes_to_int:
  "read_conexoes d = Some c \<Longrightarrow> \<exists>x. d key_Conexoes = Some x \<and> to_int x = c"
  by (auto simp: read_conexoes_def to_int_def split: option.splits sum.splits)

lemma stored_connectivity:
  "conexoes_step G (n, d) = (c, nd1) \<Longrightarrow>
   \<exists>d1 x. nd1 = (n, d1) \<and> d1 key_Conexoes = Some x \<and> to_int x = connectivity G (n, d)
        \<and> c = connectivity G (n, d)
        \<and> (\<forall>k. k \<noteq> key_Conexoes \<longrightarrow> d1 k = d k)"
proof (cases "read_conexoes d")
  case None
  assume "conexoes_step G (n, d) = (c, nd1)"
  with None show ?thesis
    by (auto simp: conexoes_step_def connectivity_def to_int_def py_int_def)
next
  case (Some c')
  assume "conexoes_step G (n, d) = (c, nd1)"
  with Some read_conexoes_to_int [OF Some] show ?thesis
    by (auto simp: conexoes_step_def connectivity_def)
qed

lemma node_pipeline:
  assumes "color_step pos vmin vmax (snd (conexoes_step G (n, d))) = Inr nd2"
  shows "\<exists>ob. emit_node fr rad nd2 = Inr ob \<and> n_id ob = n
          \<and> n_Conexoes ob = connectivity G (n, d)
          \<and> n_Publicacoes_totais ob = to_int (get_or d key_Publicacoes_totais (PInt 0))
          \<and> n_Publicacoes_em_coautoria ob = to_int (get_or d key_Publicacoes_em_coautoria (PInt 0))
          \<and> n_Proporcao_da_coautoria_Fiocruz ob
              = to_float (get_or d key_Proporcao_da_coautoria_Fiocruz PNone)"
proof -
  obtain c nd1 where cs: "conexoes_step G (n, d) = (c, nd1)" by (cases "conexoes_step G (n, d)") auto
  from stored_connectivity [OF cs] obtain d1 x where
    d1: "nd1 = (n, d1)" "d1 key_Conexoes = Some x" "to_int x = connectivity G (n, d)"
        "\<And>k. k \<noteq> key_Conexoes \<Longrightarrow> d1 k = d k" by blast
  from assms cs d1(1) color_step_shape [of pos vmin vmax n d1 nd2] obtain col where
    nd2: "nd2 = (n, d1(''x'' \<mapsto> PFloat (fst (pos n)), ''y'' \<mapsto> PFloat (snd (pos n)), ''color'' \<mapsto> PStr col))"
    by auto
  have k: "key_Publicacoes_totais \<noteq> key_Conexoes" "key_Publicacoes_em_coautoria \<noteq> key_Conexoes"
      "key_Proporcao_da_coautoria_Fiocruz \<noteq> key_Conexoes"
    by (simp_all add: key_Publicacoes_totais_def key_Publicacoes_em_coautoria_def
          key_Proporcao_da_coautoria_Fiocruz_def key_Conexoes_def)
  show ?thesis unfolding nd2
    using d1(2,3) d1(4) [OF k(1)] d1(4) [OF k(2)] d1(4) [OF k(3)]
    by (simp add: emit_node_def get_or_def py_float_def
          key_Publicacoes_totais_def key_Publicacoes_em_coautoria_def
          key_Proporcao_da_coautoria_Fiocruz_def key_Conexoes_def)
qed


lemma list_all2_map_eq: "list_all2 (\<lambda>x y. g y = h x) xs ys \<Longrightarrow> map g ys = map h xs"
  by (induction rule: list_all2_induct) simp_all

lemma build_graph_weights:
  assumes "build_graph G pos = Inr G'"
  shows "\<forall>(u, v, d)\<in>set (edges G'). \<exists>w. weight_or_1 d = Inr w"
proof (clarify)
  fix u' v' d' assume "(u', v', d') \<in> set (edges G')"
  then obtain e where "e \<in> set (edges G)" "weight_step e = (u', v', d')"
    unfolding build_graph_edges [OF assms] by auto
  then show "\<exists>w. weight_or_1 d' = Inr w"
    using weight_step_normalized [of "fst e" "fst (snd e)" "snd (snd e)" u' v' d'] by auto
qed

text \<open>
  Claim C9. When \<open>build_graph\<close> returns, \<open>graph_to_embeddable_json\<close> returns on its result,
  and the connectivity of every node in the output and in the vertex table is an int: the
  stored value when the first loop can read it, and the degree of the node in the graph
  when the attribute is absent or cannot be read. The other attributes do not depend on
  the graph: the publication counts fall back to 0 and the ratio to \<open>None\<close>.
\<close>

theorem connectivity_fallback:
  assumes "build_graph G pos = Inr G'"
  shows "\<exists>out. graph_to_embeddable_json float_repr G' node_radius_const = Inr out
          \<and> list_all2 (\<lambda>nd ob. n_id ob = fst nd
                \<and> n_Conexoes ob = connectivity G nd
                \<and> n_Publicacoes_totais ob = to_int (get_or (snd nd) key_Publicacoes_totais (PInt 0))
                \<and> n_Publicacoes_em_coautoria ob
                    = to_int (get_or (snd nd) key_Publicacoes_em_coautoria (PInt 0))
                \<and> n_Proporcao_da_coautoria_Fiocruz ob
                    = to_float (get_or (snd nd) key_Proporcao_da_coautoria_Fiocruz PNone))
              (nodes G) (graph_nodes out)
          \<and> map v_Conexoes (vertex_table out) = map (connectivity G) (nodes G)
          \<and> conexoes_values G = map (connectivity G) (nodes G)
          \<and> to_int (PInt 0) = 0 \<and> to_float PNone = None"
proof -
  let ?Q = "\<lambda>nd ob. n_id ob = fst nd
                \<and> n_Conexoes ob = connectivity G nd
                \<and> n_Publicacoes_totais ob = to_int (get_or (snd nd) key_Publicacoes_totais (PInt 0))
                \<and> n_Publicacoes_em_coautoria ob
                    = to_int (get_or (snd nd) key_Publicacoes_em_coautoria (PInt 0))
                \<and> n_Proporcao_da_coautoria_Fiocruz ob
                    = to_float (get_or (snd nd) key_Proporcao_da_coautoria_Fiocruz PNone)"
  let ?vmin = "vmin_of (conexoes_values G)" and ?vmax = "vmax_of (conexoes_values G)"
  let ?R = "\<lambda>nd nd2. color_step pos ?vmin ?vmax (snd (conexoes_step G nd)) = Inr nd2"
  have R: "list_all2 ?R (nodes G) (nodes G')"
    using build_graph_nodes [OF assms]
    by (simp add: mapM_Inr_iff nodes_after_conexoes_def list_all2_map1)
  have step: "\<exists>z. emit_node float_repr node_radius_const y = Inr z \<and> ?Q x z" if "?R x y" for x y
    using node_pipeline [of pos ?vmin ?vmax G "fst x" "snd x" y float_repr node_radius_const] that
    by simp
  from mapM_list_all2 [of ?R "nodes G" "nodes G'" "emit_node float_repr node_radius_const" ?Q, OF R step]
  obtain ns where ns: "mapM (emit_node float_repr node_radius_const) (nodes G') = Inr ns"
    "list_all2 ?Q (nodes G) ns" by blast
  have "\<exists>l. emit_link e = Inr l \<and> True" if "e \<in> set (edges G')" for e
  proof -
    obtain u v d where e: "e = (u, v, d)" by (cases e) auto
    with that build_graph_weights [OF assms] obtain w where "weight_or_1 d = Inr w" by blast
    from emit_link_ok [OF this, of u v] e show ?thesis by simp
  qed
  from mapM_all_ok [of "edges G'" emit_link "\<lambda>x y. True", OF this]
  obtain ls where ls: "mapM emit_link (edges G') = Inr ls" by blast
  from table_total [OF build_graph_weights [OF assms]] obtain rows where
    rows: "compute_common_neighbors_table G' (id_to_label_of float_repr G') = Inr rows" by blast
  have out: "graph_to_embeddable_json float_repr G' node_radius_const
        = Inr \<lparr>graph_nodes = ns, graph_links = ls, vertex_table = map vertex_row_of ns, edge_table = rows\<rparr>"
    by (simp add: graph_to_embeddable_json_def ns(1) ls rows)
  have v: "map v_Conexoes (map vertex_row_of ns) = map (connectivity G) (nodes G)"
    using ns(2) by (induction rule: list_all2_induct) (simp_all add: vertex_row_of_def)
  have c: "conexoes_values G = map (connectivity G) (nodes G)"
    unfolding conexoes_values_def
    by (rule map_cong [OF refl]) (auto simp: conexoes_step_def connectivity_def split: option.splits)
  have d: "to_int (PInt 0) = 0" "to_float PNone = None"
    by (simp_all add: to_int_def py_int_def to_float_def float_of_str_replaced_def)
  from out ns(2) v c d show ?thesis by simp
qed


theorem connectivity_fallback_witness:
  "\<exists>G' out.
      build_graph \<lparr>directed = False,
                   nodes = [(''A'', [key_Conexoes \<mapsto> PStr ''7'']), (''B'', Map.empty),
                            (''C'', [key_Conexoes \<mapsto> PStr ''abc''])],
                   edges = [(''A'', ''B'', Map.empty), (''B'', ''C'', Map.empty)]\<rparr>
                  (\<lambda>n. (Fin 0, Fin 0)) = Inr G'
      \<and> graph_to_embeddable_json (\<lambda>f. ''0.0'') G' (Fin 8) = Inr out
      \<and> map v_Conexoes (vertex_table out) = [7, 2, 1]
      \<and> map n_Conexoes (graph_nodes out) = [7, 2, 1]"
proof -
  let ?G = "\<lparr>directed = False,
                   nodes = [(''A'', [key_Conexoes \<mapsto> PStr ''7'']), (''B'', Map.empty),
                            (''C'', [key_Conexoes \<mapsto> PStr ''abc''])],
                   edges = [(''A'', ''B'', Map.empty), (''B'', ''C'', Map.empty)]\<rparr>"
  have a: "py_float (PStr ''7'') = Inr (Fin 7)" by code_simp
  have c: "read_conexoes [key_Conexoes \<mapsto> PStr ''abc''] = None" by code_simp
  have "\<exists>G'. build_graph ?G (\<lambda>n. (Fin 0, Fin 0)) = Inr G'"
  proof (rule build_graph_total)
    fix n d assume "(n, d) \<in> set (nodes ?G)"
    then consider "d = [key_Conexoes \<mapsto> PStr ''7'']" | "d = Map.empty"
      | "d = [key_Conexoes \<mapsto> PStr ''abc'']" by auto
    then show "read_conexoes d = None \<or> (\<exists>x f. d key_Conexoes = Some x \<and> py_float x = Inr f)"
    proof cases
      case 1 with a show ?thesis by simp
    next
      case 2 then show ?thesis by (simp add: read_conexoes_absent)
    next
      case 3 with c show ?thesis by simp
    qed
  qed
  then obtain G' where G': "build_graph ?G (\<lambda>n. (Fin 0, Fin 0)) = Inr G'" by blast
  have v: "map (connectivity ?G) (nodes ?G) = [7, 2, 1]" by code_simp
  from connectivity_fallback [OF G', of "\<lambda>f. ''0.0''" "Fin 8"] obtain out where
    out: "graph_to_embeddable_json (\<lambda>f. ''0.0'') G' (Fin 8) = Inr out"
    and la0: "list_all2 (\<lambda>nd ob. n_id ob = fst nd
                \<and> n_Conexoes ob = connectivity ?G nd
                \<and> n_Publicacoes_totais ob = to_int (get_or (snd nd) key_Publicacoes_totais (PInt 0))
                \<and> n_Publicacoes_em_coautoria ob
                    = to_int (get_or (snd nd) key_Publicacoes_em_coautoria (PInt 0))
                \<and> n_Proporcao_da_coautoria_Fiocruz ob
                    = to_float (get_or (snd nd) key_Proporcao_da_coautoria_Fiocruz PNone))
              (nodes ?G) (graph_nodes out)"
    and vt: "map v_Conexoes (vertex_table out) = map (connectivity ?G) (nodes ?G)"
    by blast
  have la: "list_all2 (\<lambda>nd ob. n_Conexoes ob = connectivity ?G nd) (nodes ?G) (graph_nodes out)"
    using la0 by (rule list_all2_mono) blast
  have "map n_Conexoes (graph_nodes out) = map (connectivity ?G) (nodes ?G)"
    using la by (rule list_all2_map_eq)
  with G' out vt v show ?thesis by (intro exI [of _ G'] exI [of _ out]) simp
qed


end
